theory Spec2Isabelle
  imports Complex_Main "HOL-Library.Word"
begin

unbundle bit_operations_syntax

section \<open>Numbers, strings and the seeded generator of script.js\<close>

text \<open>
  JavaScript numbers are modelled exactly where the source makes them 32-bit integers
  (the bit operations and \<open>Math.imul\<close> of \<open>mulberry32\<close> and
  \<open>hashStringToInt\<close> are operations on \<open>32 word\<close>), as \<open>int\<close> where
  they are counts and indices, and as \<open>real\<close> everywhere else: the arithmetic on
  sliders, angles and radii is exact arithmetic here, without the rounding of IEEE
  doubles. A string is a list of code units below 256, \<open>charCodeAt\<close> is
  \<open>of_char\<close>.

  Exact arithmetic and doubles can disagree in the last digit that \<open>toFixed\<close>
  prints, where the exact value lies on a rounding tie: with negation alone and certainty
  0.03 the first dash length is exactly 8.85 and is printed here as \<open>8.9\<close>, while
  the double computed by the source lies just below 8.85 and is printed as \<open>8.8\<close>. The
  strings \<open>seg_d\<close> and \<open>seg_dash\<close> are therefore those of the source up to such
  ties; no statement below depends on the digits they hold.
\<close>

type_synonym u32 = "32 word"

text \<open>
  \<open>mulberry32(a)\<close> returns a closure over the number \<open>a\<close>. The closure's
  state is that number (it grows by \<open>0x6d2b79f5\<close> at each call and is never
  truncated by the source); \<open>rnd\<close> is one call of the closure: the value drawn
  and the new state. The operators \<open>^\<close>, \<open>|\<close>, \<open>>>>\<close> and
  \<open>Math.imul\<close> read their operands modulo \<open>2 ^ 32\<close>.
\<close>

definition mulberry32 :: "nat \<Rightarrow> nat" where
  "mulberry32 a = a"

definition rnd :: "nat \<Rightarrow> real \<times> nat" where
  "rnd a =
     (let a' = a + 0x6d2b79f5;
          t0 = (word_of_nat a' :: u32);
          t1 = (t0 XOR drop_bit 15 t0) * (t0 OR 1);
          t2 = t1 XOR (t1 + (t1 XOR drop_bit 7 t1) * (t1 OR 61))
      in (real (unat (t2 XOR drop_bit 14 t2)) / 4294967296, a'))"

text \<open>The loop of \<open>hashStringToInt\<close>, and its result \<open>(h >>> 0) || 1\<close>.\<close>

fun hashLoop :: "u32 \<Rightarrow> string \<Rightarrow> u32" where
  "hashLoop h [] = h"
| "hashLoop h (c # cs) = hashLoop ((h XOR of_char c) * 16777619) cs"

definition hashStringToInt :: "string \<Rightarrow> nat" where
  "hashStringToInt str =
     (let h = hashLoop 2166136261 str in if unat h = 0 then 1 else unat h)"

subsection \<open>Geometry helpers\<close>

definition TAU :: real where
  "TAU = pi * 2"

definition lerp :: "real \<Rightarrow> real \<Rightarrow> real \<Rightarrow> real" where
  "lerp a b t = a + (b - a) * t"

definition polar :: "real \<Rightarrow> real \<Rightarrow> real \<Rightarrow> real \<Rightarrow> real \<times> real" where
  "polar cx cy r ang = (cx + r * cos ang, cy + r * sin ang)"

definition clamp :: "'a::linorder \<Rightarrow> 'a \<Rightarrow> 'a \<Rightarrow> 'a" where
  "clamp n lo hi = max lo (min hi n)"

text \<open>Decimal digits of a natural number, as \<open>String(i)\<close> writes them.\<close>

fun decimal :: "nat \<Rightarrow> string" where
  "decimal n =
     (if n < 10 then [char_of (48 + n)]
      else decimal (n div 10) @ [char_of (48 + n mod 10)])"

declare decimal.simps [simp del]

text \<open>
  \<open>x.toFixed(f)\<close>: the integer \<open>n\<close> with \<open>n / 10 ^ f\<close> closest to
  \<open>|x|\<close> (the larger one on a tie), written with \<open>f\<close> decimals and a
  leading minus sign when \<open>x < 0\<close>. This is the result for \<open>|x| < 10 ^ 21\<close>, which
  covers the radii and coordinates of the generator.
\<close>

definition padLeft :: "nat \<Rightarrow> string \<Rightarrow> string" where
  "padLeft k s = replicate (k - length s) (CHR ''0'') @ s"

definition toFixed :: "real \<Rightarrow> nat \<Rightarrow> string" where
  "toFixed x f =
     (let n = nat \<lfloor>\<bar>x\<bar> * 10 ^ f + 1 / 2\<rfloor>;
          body = (if f = 0 then decimal n
                  else decimal (n div 10 ^ f) @ ''.'' @ padLeft f (decimal (n mod 10 ^ f)))
      in (if x < 0 then ''-'' else '''') @ body)"

definition arcPath :: "real \<Rightarrow> real \<Rightarrow> real \<Rightarrow> real \<Rightarrow> real \<Rightarrow> string" where
  "arcPath cx cy r a0 a1 =
     (let start = polar cx cy r a0;
          end' = polar cx cy r a1;
          large = (if \<bar>a1 - a0\<bar> > pi then ''1'' else ''0'');
          sweep = (if a1 > a0 then ''1'' else ''0'')
      in ''M '' @ toFixed (fst start) 3 @ '' '' @ toFixed (snd start) 3 @
         '' A '' @ toFixed r 3 @ '' '' @ toFixed r 3 @ '' 0 '' @ large @ '' '' @ sweep @
         '' '' @ toFixed (fst end') 3 @ '' '' @ toFixed (snd end') 3)"

subsection \<open>Spoke count and content words\<close>

text \<open>
  Reading an array outside its bounds gives \<open>undefined\<close> in JavaScript:
  \<open>None\<close> here.
\<close>

definition nthJS :: "'a list \<Rightarrow> int \<Rightarrow> 'a option" where
  "nthJS xs i = (if 0 \<le> i \<and> i < int (length xs) then Some (xs ! nat i) else None)"

definition candidates :: "int list" where
  "candidates = [7, 9, 11, 13, 17, 19]"

definition chooseSpokesIdx :: "int \<Rightarrow> int" where
  "chooseSpokesIdx wordCount = clamp ((wordCount - 3) div 3) 0 (int (length candidates) - 1)"

definition chooseSpokes :: "int \<Rightarrow> int option" where
  "chooseSpokes wordCount = nthJS candidates (chooseSpokesIdx wordCount)"

text \<open>
  \<open>toLowerCase\<close> on code units below 256: the letters A to Z and the capital
  letters of Latin-1 (0xC0 to 0xDE without the sign 0xD7) move up by 32.
\<close>

definition toLowerChar :: "char \<Rightarrow> char" where
  "toLowerChar c =
     (let k = (of_char c :: nat)
      in if (65 \<le> k \<and> k \<le> 90) \<or> (192 \<le> k \<and> k \<le> 222 \<and> k \<noteq> 215)
         then char_of (k + 32) else c)"

definition toLowerCase :: "string \<Rightarrow> string" where
  "toLowerCase text = map toLowerChar text"

text \<open>The character class \<open>[a-z0-9']\<close>.\<close>

definition wordChar :: "char \<Rightarrow> bool" where
  "wordChar c =
     (let k = (of_char c :: nat)
      in (97 \<le> k \<and> k \<le> 122) \<or> (48 \<le> k \<and> k \<le> 57) \<or> k = 39)"

text \<open>
  \<open>text.match(/[a-z0-9']+/g) || []\<close>: the maximal runs of word characters, left to
  right. The first argument is the run being read.
\<close>

fun matchRuns :: "string \<Rightarrow> string \<Rightarrow> string list" where
  "matchRuns acc [] = (if acc = [] then [] else [acc])"
| "matchRuns acc (c # cs) =
     (if wordChar c then matchRuns (acc @ [c]) cs
      else if acc = [] then matchRuns [] cs
      else acc # matchRuns [] cs)"

definition stopWords :: "string list" where
  "stopWords = [''the'', ''a'', ''an'', ''and'', ''or'', ''but'', ''is'', ''was'', ''am'', ''are'']"

definition splitContentWords :: "string \<Rightarrow> string list" where
  "splitContentWords text =
     filter (\<lambda>w. \<not> List.member stopWords w) (matchRuns [] (toLowerCase text))"

section \<open>The core generator\<close>

text \<open>
  The interface \<open>SemagramParams\<close>. Its field \<open>proposition\<close> is written
  \<open>proposition'\<close>; the fields of the segment and connector objects carry the prefixes
  \<open>seg_\<close> and \<open>conn_\<close>. The generator is defined on every extension of the record,
  as the source reads the fields it needs from any object that has them.
\<close>

datatype perspective = P1st | P2nd | P3rd

record SemagramParams =
  proposition' :: string
  certainty :: real
  modality :: real
  temporality :: real
  agency :: real
  perspective :: perspective
  negation :: bool
  hypothetical :: bool
  emphasis :: real
  seed :: string

definition defaultParams :: SemagramParams where
  "defaultParams =
     \<lparr>proposition' = ''She was always there even before I knew her'',
      certainty = 0.68, modality = 0.4, temporality = 0.82, agency = 0.55,
      perspective = P1st, negation = False, hypothetical = False, emphasis = 0.9,
      seed = ''arrival''\<rparr>"

text \<open>An arc segment \<open>{d, w, dash, opacity}\<close> and a connector
  \<open>{x1, y1, x2, y2, w, opacity}\<close>.\<close>

record seg =
  seg_d :: string
  seg_w :: real
  seg_dash :: "string option"
  seg_opacity :: real

record conn =
  conn_x1 :: real
  conn_y1 :: real
  conn_x2 :: real
  conn_y2 :: real
  conn_w :: real
  conn_opacity :: real

record glyph =
  segments :: "seg list list"
  connectors :: "conn list list"
  rings :: int
  spokes :: "int option"
  radiusBase :: real
  ringGap :: real

text \<open>
  A counting \<open>for\<close> loop that pushes one element per index and draws from the
  generator: the body gets the index and the generator's state.
\<close>

fun forPush :: "(nat \<Rightarrow> 's \<Rightarrow> 'a \<times> 's) \<Rightarrow> nat list \<Rightarrow> 's \<Rightarrow> 'a list \<times> 's" where
  "forPush body [] st = ([], st)"
| "forPush body (i # is) st =
     (let (x, st1) = body i st;
          (xs, st2) = forPush body is st1
      in (x # xs, st2))"

text \<open>The stroke width of ring \<open>i\<close>.\<close>

definition strokeWidth :: "real \<Rightarrow> real \<Rightarrow> nat \<Rightarrow> real" where
  "strokeWidth c e i = clamp (lerp 1.2 5.5 c * lerp 0.8 1.15 e * (1 - real i * 0.03)) 0.8 7"

definition dashPattern :: "bool \<Rightarrow> bool \<Rightarrow> real \<Rightarrow> string option" where
  "dashPattern neg hyp c =
     (if neg \<and> hyp then Some (toFixed (lerp 2 6 c) 1 @ '' '' @ toFixed (lerp 1 3 (1 - c)) 1)
      else if neg then Some (toFixed (lerp 4 9 (1 - c)) 1 @ '' '' @ toFixed (lerp 2 4 c) 1)
      else if hyp then Some (toFixed (lerp 1.5 4 (1 - c)) 1 @ '' '' @ toFixed (lerp 1 3 c) 1)
      else None)"

definition perspRot :: "perspective \<Rightarrow> real" where
  "perspRot v = (if v = P1st then 0.0 else if v = P2nd then 0.12 else - 0.12)"

text \<open>The body of the inner loop over \<open>s\<close> (lines 107 to 131): three draws.\<close>

definition segmentBody ::
  "'a SemagramParams_scheme \<Rightarrow> real \<Rightarrow> nat \<Rightarrow> real \<Rightarrow> int \<Rightarrow> nat \<Rightarrow> nat \<Rightarrow> seg \<times> nat" where
  "segmentBody p r i bias k s st =
     (let a0 = (TAU * real s) / real_of_int k + bias * 0.2;
          (u1, st1) = rnd st;
          jitter = (u1 - 0.5) * (0.25 + temporality p * 0.35);
          span = lerp 0.7 1.55 (temporality p) + jitter;
          (u2, st2) = rnd st1;
          direction = (if u2 > 0.5 then 1 else - 1);
          a1 = a0 + span * direction;
          wd = strokeWidth (certainty p) (emphasis p) i;
          dash = dashPattern (negation p) (hypothetical p) (certainty p);
          pr = perspRot (perspective p);
          path = arcPath 0 0 r (a0 + pr) (a1 + pr);
          (u3, st3) = rnd st2;
          op = 0.7 + (u3 - 0.5) * 0.1 + (agency p - 0.5) * 0.1
      in (\<lparr>seg_d = path, seg_w = wd, seg_dash = dash, seg_opacity = clamp op 0.45 1\<rparr>, st3))"

text \<open>
  The loop \<open>for (let s = 0; s < spokes; s++)\<close>: no iteration when \<open>spokes\<close> is
  \<open>undefined\<close>.
\<close>

definition spokeLoop :: "int option \<Rightarrow> (int \<Rightarrow> nat \<Rightarrow> 's \<Rightarrow> 'a \<times> 's) \<Rightarrow> 's \<Rightarrow> 'a list \<times> 's" where
  "spokeLoop sp body st =
     (case sp of None \<Rightarrow> ([], st) | Some k \<Rightarrow> forPush (body k) [0..<nat k] st)"

text \<open>The body of the loop over the rings (lines 100 to 134): one draw, then the segments.\<close>

definition ringBody ::
  "'a SemagramParams_scheme \<Rightarrow> real \<Rightarrow> real \<Rightarrow> int option \<Rightarrow> nat \<Rightarrow> nat \<Rightarrow> seg list \<times> nat" where
  "ringBody p rb gap sp i st =
     (let r = rb + real i * gap;
          (u, st1) = rnd st;
          bias = lerp (- 0.6) 0.6 (modality p) + (u - 0.5) * 0.2
      in spokeLoop sp (\<lambda>k. segmentBody p r i bias k) st1)"

text \<open>The connectors between ring \<open>i\<close> and ring \<open>i + 1\<close> (lines 138 to 149).\<close>

definition connBody ::
  "'a SemagramParams_scheme \<Rightarrow> real \<Rightarrow> real \<Rightarrow> int \<Rightarrow> nat \<Rightarrow> nat \<Rightarrow> conn \<times> nat" where
  "connBody p r0 r1 k s st =
     (let (u, st1) = rnd st;
          a = (TAU * real s) / real_of_int k + (u - 0.5) * 0.03;
          p0 = polar 0 0 r0 a;
          p1 = polar 0 0 r1 a
      in (\<lparr>conn_x1 = fst p0, conn_y1 = snd p0, conn_x2 = fst p1, conn_y2 = snd p1,
           conn_w = lerp 0.6 2.2 (certainty p),
           conn_opacity = 0.25 + temporality p * 0.25\<rparr>, st1))"

definition connRingBody ::
  "'a SemagramParams_scheme \<Rightarrow> real \<Rightarrow> real \<Rightarrow> int option \<Rightarrow> nat \<Rightarrow> nat \<Rightarrow> conn list \<times> nat" where
  "connRingBody p rb gap sp i st =
     (let r0 = rb + real i * gap;
          r1 = rb + real (i + 1) * gap
      in spokeLoop sp (\<lambda>k. connBody p r0 r1 k) st)"

text \<open>\<open>words.length || 1\<close>.\<close>

definition lengthOr1 :: "'a list \<Rightarrow> int" where
  "lengthOr1 ws = (if length ws = 0 then 1 else int (length ws))"

definition generateSegments :: "'a SemagramParams_scheme \<Rightarrow> glyph" where
  "generateSegments p =
     (let baseSeed = hashStringToInt (seed p @ ''|'' @ proposition' p);
          st0 = mulberry32 baseSeed;
          ws = splitContentWords (proposition' p);
          (u1, st1) = rnd st0;
          rs = clamp (3 + \<lfloor>temporality p * 3 + u1 * 2\<rfloor>) 3 7;
          sp = chooseSpokes (lengthOr1 ws);
          rb = 100;
          (u2, st2) = rnd st1;
          gap = 28 + u2 * 6;
          (sgs, st3) = forPush (ringBody p rb gap sp) [0..<nat rs] st2;
          (cns, st4) = forPush (connRingBody p rb gap sp) [0..<nat (rs - 1)] st3
      in \<lparr>segments = sgs, connectors = cns, rings = rs, spokes = sp,
          radiusBase = rb, ringGap = gap\<rparr>)"

section \<open>Composite and blend rendering\<close>

datatype mode = Single | Composite | Blend

text \<open>\<open>String.prototype.trim\<close> on code units below 256: tab, line feed, vertical tab,
  form feed, carriage return, space and the no-break space are white space.\<close>

definition isSpace :: "char \<Rightarrow> bool" where
  "isSpace c = List.member [9, 10, 11, 12, 13, 32, 160 :: nat] (of_char c)"

definition trim :: "string \<Rightarrow> string" where
  "trim s = rev (dropWhile isSpace (rev (dropWhile isSpace s)))"

text \<open>
  \<open>str.split(/\n+/)\<close>: the pieces between maximal runs of line feeds, the empty
  pieces at both ends included. The flag says that the last character read was a line
  feed; the second argument is the piece being read.
\<close>

fun splitNewlines :: "bool \<Rightarrow> string \<Rightarrow> string \<Rightarrow> string list" where
  "splitNewlines inSep acc [] = [acc]"
| "splitNewlines inSep acc (c # cs) =
     (if c = CHR 0x0A
      then (if inSep then splitNewlines True acc cs else acc # splitNewlines True [] cs)
      else splitNewlines False (acc @ [c]) cs)"

definition clauses :: "mode \<Rightarrow> 'a SemagramParams_scheme \<Rightarrow> string list" where
  "clauses md p =
     (if md \<noteq> Composite then []
      else filter (\<lambda>s. s \<noteq> []) (map trim (splitNewlines False [] (proposition' p))))"

definition palette :: "string list" where
  "palette = [''#fafafa'', ''#d1d5db'', ''#a3a3a3'', ''#e5e7eb'', ''#cbd5e1'']"

text \<open>A rendered \<open><g transform=... opacity=...>\<close> around one \<open>SemagramSVG\<close>:
  the rotation is in degrees, the scale is absent in blend mode.\<close>

record 'a layer =
  g_rotate :: real
  g_scale :: "real option"
  g_opacity :: real
  g_glyph :: glyph
  g_params :: "'a SemagramParams_scheme"
  g_color :: string

text \<open>The angle \<open>rot\<close> of line 394, for layer \<open>i\<close> of \<open>n\<close> clauses.\<close>

definition compositeRot :: "nat \<Rightarrow> nat \<Rightarrow> real" where
  "compositeRot n i = (real i * TAU) / (real n * 7)"

definition compositeLayer :: "'a SemagramParams_scheme \<Rightarrow> nat \<Rightarrow> nat \<Rightarrow> string \<Rightarrow> 'a layer" where
  "compositeLayer p n i clause =
     (let tParams = p\<lparr>proposition' := clause, seed := seed p @ '':'' @ decimal i\<rparr>;
          g = generateSegments tParams;
          rot = compositeRot n i;
          scale = 1 - real i * 0.06;
          col = palette ! (i mod length palette)
      in \<lparr>g_rotate = (rot * 180) / pi, g_scale = Some scale, g_opacity = 1 - real i * 0.07,
          g_glyph = g, g_params = tParams, g_color = col\<rparr>)"

definition compositeLayers :: "'a SemagramParams_scheme \<Rightarrow> 'a layer list" where
  "compositeLayers p =
     (let cl = clauses Composite p
      in map (\<lambda>(i, clause). compositeLayer p (length cl) i clause) (enumerate 0 cl))"

text \<open>Blend mode (lines 406 to 417): the two layers and the centre node
  (radius and opacity).\<close>

definition blendLayerA :: "'a SemagramParams_scheme \<Rightarrow> real \<Rightarrow> 'a layer" where
  "blendLayerA p blend =
     \<lparr>g_rotate = - 15, g_scale = None, g_opacity = 1 - blend * 0.65,
      g_glyph = generateSegments p, g_params = p, g_color = ''#e5e7eb''\<rparr>"

definition blendLayerB :: "'a SemagramParams_scheme \<Rightarrow> real \<Rightarrow> 'a layer" where
  "blendLayerB p2 blend =
     \<lparr>g_rotate = 15, g_scale = None, g_opacity = 0.35 + blend * 0.65,
      g_glyph = generateSegments p2, g_params = p2, g_color = ''#cbd5e1''\<rparr>"

definition blendCenter ::
  "'a SemagramParams_scheme \<Rightarrow> 'a SemagramParams_scheme \<Rightarrow> real \<Rightarrow> real \<times> real" where
  "blendCenter p p2 blend = (lerp 8 18 ((agency p + agency p2) / 2), 0.25 + blend * 0.35)"

section \<open>Notions of the specification\<close>

text \<open>The semantic parameter vector of a request: every field but the two texts.\<close>

definition paramVector ::
  "'a SemagramParams_scheme \<Rightarrow> real \<times> real \<times> real \<times> real \<times> perspective \<times> bool \<times> bool \<times> real" where
  "paramVector p =
     (certainty p, modality p, temporality p, agency p, perspective p, negation p,
      hypothetical p, emphasis p)"

text \<open>
  Tokenization as the specification words it: the content words, and the full raw input
  as one token when there are none. The source has no such list; it is compared with
  what the source computes, \<open>words.length || 1\<close>.
\<close>

definition tokenizeSpec :: "string \<Rightarrow> string list" where
  "tokenizeSpec text = (let ws = splitContentWords text in if ws = [] then [text] else ws)"

section \<open>Facts about the loops and the generator\<close>

lemma rnd_range: "0 \<le> fst (rnd a) \<and> fst (rnd a) < 1"
proof -
  have "\<exists>x :: u32. fst (rnd a) = real (unat x) / 4294967296"
    unfolding rnd_def Let_def fst_conv by blast
  then obtain x :: u32 where x: "fst (rnd a) = real (unat x) / 4294967296" ..
  define n where "n = unat x"
  have "n < 4294967296"
    unfolding n_def using unsigned_less [of x, where ?'a = nat] by simp
  moreover have "fst (rnd a) = real n / 4294967296"
    unfolding n_def by (rule x)
  ultimately show ?thesis by simp
qed

lemma length_forPush: "length (fst (forPush body is st)) = length is"
  by (induction "is" arbitrary: st) (simp_all add: case_prod_beta Let_def)

lemma nth_forPush:
  "i < length is \<Longrightarrow> \<exists>st'. fst (forPush body is st) ! i = fst (body (is ! i) st')"
proof (induction "is" arbitrary: st i)
  case Nil
  then show ?case by simp
next
  case (Cons a "is")
  show ?case
  proof (cases i)
    case 0
    then show ?thesis by (auto simp: case_prod_beta Let_def)
  next
    case (Suc n)
    with Cons.prems have "n < length is" by simp
    from Cons.IH [OF this, of "snd (body a st)"] Suc
    show ?thesis by (simp add: case_prod_beta Let_def)
  qed
qed

lemma length_spokeLoop: "length (fst (spokeLoop (Some k) body st)) = nat k"
  by (simp add: spokeLoop_def length_forPush)

lemma nth_spokeLoop:
  "s < nat k \<Longrightarrow> \<exists>st'. fst (spokeLoop (Some k) body st) ! s = fst (body k s st')"
  using nth_forPush [of s "[0..<nat k]" "body k" st] by (simp add: spokeLoop_def)

lemma chooseSpokesIdx_range: "0 \<le> chooseSpokesIdx n \<and> chooseSpokesIdx n \<le> 5"
  by (simp add: chooseSpokesIdx_def clamp_def candidates_def)

lemma chooseSpokesIdx_mono: "m \<le> n \<Longrightarrow> chooseSpokesIdx m \<le> chooseSpokesIdx n"
  by (auto simp: chooseSpokesIdx_def clamp_def candidates_def intro: zdiv_mono1)

lemma chooseSpokes_Some: "chooseSpokes n = Some (candidates ! nat (chooseSpokesIdx n))"
  using chooseSpokesIdx_range [of n] by (simp add: chooseSpokes_def nthJS_def candidates_def)

lemma candidates_nth_cases:
  "0 \<le> i \<Longrightarrow> i \<le> 5 \<Longrightarrow> candidates ! nat i \<in> {7, 9, 11, 13, 17, 19}"
proof -
  assume "0 \<le> i" "i \<le> 5"
  then have "i = 0 \<or> i = 1 \<or> i = 2 \<or> i = 3 \<or> i = 4 \<or> i = 5" by arith
  then show ?thesis by (auto simp: candidates_def)
qed

lemma candidates_mono:
  "0 \<le> i \<Longrightarrow> i \<le> j \<Longrightarrow> j \<le> 5 \<Longrightarrow> candidates ! nat i \<le> candidates ! nat j"
proof -
  assume a: "0 \<le> i" "i \<le> j" "j \<le> 5"
  have "sorted candidates" by (simp add: candidates_def)
  moreover have "nat i \<le> nat j" "nat j < length candidates" using a by (simp_all add: candidates_def)
  ultimately show ?thesis by (rule sorted_nth_mono)
qed

lemma gs_rings:
  "rings (generateSegments p) =
     clamp (3 + \<lfloor>temporality p * 3 +
       fst (rnd (hashStringToInt (seed p @ ''|'' @ proposition' p))) * 2\<rfloor>) 3 7"
  by (simp add: generateSegments_def Let_def case_prod_beta mulberry32_def)

lemma gs_spokes:
  "spokes (generateSegments p) = chooseSpokes (lengthOr1 (splitContentWords (proposition' p)))"
  by (simp add: generateSegments_def Let_def case_prod_beta)

lemma gs_radiusBase: "radiusBase (generateSegments p) = 100"
  by (simp add: generateSegments_def Let_def case_prod_beta)

lemma gs_ringGap:
  "ringGap (generateSegments p) =
     28 + fst (rnd (snd (rnd (hashStringToInt (seed p @ ''|'' @ proposition' p))))) * 6"
  by (simp add: generateSegments_def Let_def case_prod_beta mulberry32_def)

lemma gs_segments:
  "\<exists>st. segments (generateSegments p) =
     fst (forPush (ringBody p (radiusBase (generateSegments p)) (ringGap (generateSegments p))
            (spokes (generateSegments p))) [0..<nat (rings (generateSegments p))] st)"
  by (simp add: generateSegments_def Let_def case_prod_beta) blast

lemma gs_connectors:
  "\<exists>st. connectors (generateSegments p) =
     fst (forPush (connRingBody p (radiusBase (generateSegments p)) (ringGap (generateSegments p))
            (spokes (generateSegments p))) [0..<nat (rings (generateSegments p) - 1)] st)"
  by (simp add: generateSegments_def Let_def case_prod_beta) blast

lemma gs_rings_range: "3 \<le> rings (generateSegments p) \<and> rings (generateSegments p) \<le> 7"
  by (simp add: gs_rings clamp_def)

lemma gs_ringGap_range: "28 \<le> ringGap (generateSegments p) \<and> ringGap (generateSegments p) < 34"
  using rnd_range [of "snd (rnd (hashStringToInt (seed p @ ''|'' @ proposition' p)))"]
  by (simp add: gs_ringGap)

lemma hashLoop_fold:
  "hashLoop h k = fold (\<lambda>c h. (h XOR word_of_nat c) * 16777619) (map of_char k) h"
  by (induction k arbitrary: h) (simp_all add: of_nat_of_char)

lemma splitContentWords_default:
  "splitContentWords (proposition' defaultParams) =
     [''she'', ''always'', ''there'', ''even'', ''before'', ''i'', ''knew'', ''her'']"
  unfolding defaultParams_def by code_simp

lemma gs_spokes_Some: "\<exists>k. spokes (generateSegments p) = Some k \<and> 7 \<le> k \<and> k \<le> 19"
proof -
  let ?i = "chooseSpokesIdx (lengthOr1 (splitContentWords (proposition' p)))"
  have "candidates ! nat ?i \<in> {7, 9, 11, 13, 17, 19}"
    using chooseSpokesIdx_range [of "lengthOr1 (splitContentWords (proposition' p))"]
    by (intro candidates_nth_cases) simp_all
  then have "7 \<le> candidates ! nat ?i \<and> candidates ! nat ?i \<le> 19" by auto
  moreover have "spokes (generateSegments p) = Some (candidates ! nat ?i)"
    by (simp only: gs_spokes chooseSpokes_Some)
  ultimately show ?thesis by blast
qed

lemma length_segments:
  "length (segments (generateSegments p)) = nat (rings (generateSegments p))"
proof -
  obtain st where "segments (generateSegments p) =
     fst (forPush (ringBody p (radiusBase (generateSegments p)) (ringGap (generateSegments p))
            (spokes (generateSegments p))) [0..<nat (rings (generateSegments p))] st)"
    using gs_segments [of p] ..
  then show ?thesis by (simp add: length_forPush)
qed

lemma length_connectors:
  "length (connectors (generateSegments p)) = nat (rings (generateSegments p) - 1)"
proof -
  obtain st where "connectors (generateSegments p) =
     fst (forPush (connRingBody p (radiusBase (generateSegments p)) (ringGap (generateSegments p))
            (spokes (generateSegments p))) [0..<nat (rings (generateSegments p) - 1)] st)"
    using gs_connectors [of p] ..
  then show ?thesis by (simp add: length_forPush)
qed

lemma segments_nth:
  assumes "i < nat (rings (generateSegments p))"
  shows "\<exists>st. segments (generateSegments p) ! i =
     fst (ringBody p (radiusBase (generateSegments p)) (ringGap (generateSegments p))
            (spokes (generateSegments p)) i st)"
proof -
  obtain st where st: "segments (generateSegments p) =
     fst (forPush (ringBody p (radiusBase (generateSegments p)) (ringGap (generateSegments p))
            (spokes (generateSegments p))) [0..<nat (rings (generateSegments p))] st)"
    using gs_segments [of p] ..
  let ?body = "ringBody p (radiusBase (generateSegments p)) (ringGap (generateSegments p))
            (spokes (generateSegments p))"
  let ?n = "nat (rings (generateSegments p))"
  have "i < length [0..<?n]" using assms by simp
  from nth_forPush [OF this, of ?body st]
  obtain st' where "fst (forPush ?body [0..<?n] st) ! i = fst (?body ([0..<?n] ! i) st')" ..
  then have "segments (generateSegments p) ! i = fst (?body i st')"
    using st assms by simp
  then show ?thesis ..
qed

lemma connectors_nth:
  assumes "i < nat (rings (generateSegments p) - 1)"
  shows "\<exists>st. connectors (generateSegments p) ! i =
     fst (connRingBody p (radiusBase (generateSegments p)) (ringGap (generateSegments p))
            (spokes (generateSegments p)) i st)"
proof -
  obtain st where st: "connectors (generateSegments p) =
     fst (forPush (connRingBody p (radiusBase (generateSegments p)) (ringGap (generateSegments p))
            (spokes (generateSegments p))) [0..<nat (rings (generateSegments p) - 1)] st)"
    using gs_connectors [of p] ..
  let ?body = "connRingBody p (radiusBase (generateSegments p)) (ringGap (generateSegments p))
            (spokes (generateSegments p))"
  let ?n = "nat (rings (generateSegments p) - 1)"
  have "i < length [0..<?n]" using assms by simp
  from nth_forPush [OF this, of ?body st]
  obtain st' where "fst (forPush ?body [0..<?n] st) ! i = fst (?body ([0..<?n] ! i) st')" ..
  then have "connectors (generateSegments p) ! i = fst (?body i st')"
    using st assms by simp
  then show ?thesis ..
qed

lemma length_ringBody: "length (fst (ringBody p rb gap (Some k) i st)) = nat k"
  by (simp add: ringBody_def Let_def case_prod_beta length_spokeLoop)

lemma nth_ringBody:
  "s < nat k \<Longrightarrow> \<exists>bias st'. fst (ringBody p rb gap (Some k) i st) ! s =
     fst (segmentBody p (rb + real i * gap) i bias k s st')"
proof -
  assume s: "s < nat k"
  let ?bias = "lerp (- 0.6) 0.6 (modality p) + (fst (rnd st) - 0.5) * 0.2"
  let ?body = "\<lambda>k. segmentBody p (rb + real i * gap) i ?bias k"
  from nth_spokeLoop [OF s, of ?body "snd (rnd st)"]
  obtain st' where "fst (spokeLoop (Some k) ?body (snd (rnd st))) ! s = fst (?body k s st')" ..
  then have "fst (ringBody p rb gap (Some k) i st) ! s =
      fst (segmentBody p (rb + real i * gap) i ?bias k s st')"
    by (simp add: ringBody_def Let_def case_prod_beta)
  then show ?thesis by (intro exI)
qed

lemma length_connRingBody: "length (fst (connRingBody p rb gap (Some k) i st)) = nat k"
  by (simp add: connRingBody_def Let_def length_spokeLoop)

lemma nth_connRingBody:
  "s < nat k \<Longrightarrow> \<exists>st'. fst (connRingBody p rb gap (Some k) i st) ! s =
     fst (connBody p (rb + real i * gap) (rb + real (i + 1) * gap) k s st')"
proof -
  assume s: "s < nat k"
  let ?body = "\<lambda>k. connBody p (rb + real i * gap) (rb + real (i + 1) * gap) k"
  from nth_spokeLoop [OF s, of ?body st]
  obtain st' where "fst (spokeLoop (Some k) ?body st) ! s = fst (?body k s st')" ..
  then have "fst (connRingBody p rb gap (Some k) i st) ! s =
      fst (connBody p (rb + real i * gap) (rb + real (i + 1) * gap) k s st')"
    by (simp add: connRingBody_def Let_def)
  then show ?thesis by (intro exI)
qed

lemma segmentBody_w:
  "seg_w (fst (segmentBody p r i bias k s st)) = strokeWidth (certainty p) (emphasis p) i"
  by (simp add: segmentBody_def Let_def case_prod_beta)

lemma segmentBody_d:
  "\<exists>a0 a1. seg_d (fst (segmentBody p r i bias k s st)) = arcPath 0 0 r a0 a1"
  unfolding segmentBody_def Let_def case_prod_beta by simp blast

lemma segmentBody_opacity:
  "0.45 \<le> seg_opacity (fst (segmentBody p r i bias k s st))
    \<and> seg_opacity (fst (segmentBody p r i bias k s st)) \<le> 1"
  by (simp add: segmentBody_def Let_def case_prod_beta clamp_def)

lemma connBody_ends:
  "\<exists>a. (conn_x1 (fst (connBody p r0 r1 k s st)), conn_y1 (fst (connBody p r0 r1 k s st)))
        = polar 0 0 r0 a
     \<and> (conn_x2 (fst (connBody p r0 r1 k s st)), conn_y2 (fst (connBody p r0 r1 k s st)))
        = polar 0 0 r1 a"
  unfolding connBody_def Let_def case_prod_beta by simp blast

text \<open>Segment \<open>s\<close> of ring \<open>i\<close>, and connector \<open>s\<close> after ring \<open>i\<close>.\<close>

lemma segment_at:
  assumes "i < nat (rings (generateSegments p))" and "spokes (generateSegments p) = Some k"
  shows "length (segments (generateSegments p) ! i) = nat k"
    and "s < nat k \<Longrightarrow> \<exists>bias st. segments (generateSegments p) ! i ! s =
      fst (segmentBody p (radiusBase (generateSegments p) + real i * ringGap (generateSegments p))
            i bias k s st)"
proof -
  obtain st where st: "segments (generateSegments p) ! i =
     fst (ringBody p (radiusBase (generateSegments p)) (ringGap (generateSegments p))
            (Some k) i st)"
    using segments_nth [OF assms(1)] assms(2) by auto
  show "length (segments (generateSegments p) ! i) = nat k"
    unfolding st by (rule length_ringBody)
  show "\<exists>bias st. segments (generateSegments p) ! i ! s =
      fst (segmentBody p (radiusBase (generateSegments p) + real i * ringGap (generateSegments p))
            i bias k s st)" if "s < nat k"
    unfolding st by (rule nth_ringBody [OF that])
qed

lemma connector_at:
  assumes "i < nat (rings (generateSegments p) - 1)" and "spokes (generateSegments p) = Some k"
  shows "length (connectors (generateSegments p) ! i) = nat k"
    and "s < nat k \<Longrightarrow> \<exists>st. connectors (generateSegments p) ! i ! s =
      fst (connBody p (radiusBase (generateSegments p) + real i * ringGap (generateSegments p))
            (radiusBase (generateSegments p) + real (i + 1) * ringGap (generateSegments p))
            k s st)"
proof -
  obtain st where st: "connectors (generateSegments p) ! i =
     fst (connRingBody p (radiusBase (generateSegments p)) (ringGap (generateSegments p))
            (Some k) i st)"
    using connectors_nth [OF assms(1)] assms(2) by auto
  show "length (connectors (generateSegments p) ! i) = nat k"
    unfolding st by (rule length_connRingBody)
  show "\<exists>st. connectors (generateSegments p) ! i ! s =
      fst (connBody p (radiusBase (generateSegments p) + real i * ringGap (generateSegments p))
            (radiusBase (generateSegments p) + real (i + 1) * ringGap (generateSegments p))
            k s st)" if "s < nat k"
    unfolding st by (rule nth_connRingBody [OF that])
qed

lemma spokes_default: "spokes (generateSegments defaultParams) = Some 9"
  by (simp add: gs_spokes splitContentWords_default lengthOr1_def chooseSpokes_def
      chooseSpokesIdx_def clamp_def candidates_def nthJS_def)

lemma clamp_mono: "x \<le> y \<Longrightarrow> clamp x lo hi \<le> clamp y lo hi"
  by (auto simp: clamp_def max_def min_def)

lemma strokeWidth_range: "0.8 \<le> strokeWidth c e i \<and> strokeWidth c e i \<le> 7"
  by (simp add: strokeWidth_def clamp_def)

lemma taper_nonneg: "i < 7 \<Longrightarrow> 0 \<le> 1 - real i * 0.03"
  by simp

lemma strokeWidth_mono_certainty:
  assumes "c \<le> c'" and "0 \<le> e" and "i < 7"
  shows "strokeWidth c e i \<le> strokeWidth c' e i"
proof -
  have "lerp 1.2 5.5 c \<le> lerp 1.2 5.5 c'"
    using assms(1) by (simp add: lerp_def)
  moreover have "0 \<le> lerp 0.8 1.15 e"
    using assms(2) by (simp add: lerp_def)
  ultimately have "lerp 1.2 5.5 c * lerp 0.8 1.15 e \<le> lerp 1.2 5.5 c' * lerp 0.8 1.15 e"
    by (rule mult_right_mono)
  then have "lerp 1.2 5.5 c * lerp 0.8 1.15 e * (1 - real i * 0.03)
      \<le> lerp 1.2 5.5 c' * lerp 0.8 1.15 e * (1 - real i * 0.03)"
    using taper_nonneg [OF assms(3)] by (rule mult_right_mono)
  then show ?thesis unfolding strokeWidth_def by (rule clamp_mono)
qed

lemma strokeWidth_mono_emphasis:
  assumes "e \<le> e'" and "0 \<le> c" and "i < 7"
  shows "strokeWidth c e i \<le> strokeWidth c e' i"
proof -
  have "lerp 0.8 1.15 e \<le> lerp 0.8 1.15 e'"
    using assms(1) by (simp add: lerp_def)
  moreover have "0 \<le> lerp 1.2 5.5 c"
    using assms(2) by (simp add: lerp_def)
  ultimately have "lerp 1.2 5.5 c * lerp 0.8 1.15 e \<le> lerp 1.2 5.5 c * lerp 0.8 1.15 e'"
    by (rule mult_left_mono)
  then have "lerp 1.2 5.5 c * lerp 0.8 1.15 e * (1 - real i * 0.03)
      \<le> lerp 1.2 5.5 c * lerp 0.8 1.15 e' * (1 - real i * 0.03)"
    using taper_nonneg [OF assms(3)] by (rule mult_right_mono)
  then show ?thesis unfolding strokeWidth_def by (rule clamp_mono)
qed

lemma strokeWidth_taper:
  assumes "i \<le> j" and "0 \<le> c" and "0 \<le> e"
  shows "strokeWidth c e j \<le> strokeWidth c e i"
proof -
  have "0 \<le> lerp 1.2 5.5 c" "0 \<le> lerp 0.8 1.15 e"
    using assms(2,3) by (simp_all add: lerp_def)
  then have "0 \<le> lerp 1.2 5.5 c * lerp 0.8 1.15 e" by simp
  moreover have "1 - real j * 0.03 \<le> 1 - real i * 0.03"
    using assms(1) by simp
  ultimately have "lerp 1.2 5.5 c * lerp 0.8 1.15 e * (1 - real j * 0.03)
      \<le> lerp 1.2 5.5 c * lerp 0.8 1.15 e * (1 - real i * 0.03)"
    by (rule mult_left_mono [rotated])
  then show ?thesis unfolding strokeWidth_def by (rule clamp_mono)
qed

lemma seg_w_at:
  assumes "i < nat (rings (generateSegments p))" and "spokes (generateSegments p) = Some k"
    and "s < nat k"
  shows "seg_w (segments (generateSegments p) ! i ! s) = strokeWidth (certainty p) (emphasis p) i"
proof -
  obtain bias st where "segments (generateSegments p) ! i ! s =
      fst (segmentBody p (radiusBase (generateSegments p) + real i * ringGap (generateSegments p))
            i bias k s st)"
    using segment_at(2) [OF assms] by blast
  then show ?thesis by (simp only: segmentBody_w)
qed

text \<open>Rings and spokes do not read the certainty or the emphasis.\<close>

lemma shape_certainty:
  "rings (generateSegments (p\<lparr>certainty := c\<rparr>)) = rings (generateSegments p)"
  "spokes (generateSegments (p\<lparr>certainty := c\<rparr>)) = spokes (generateSegments p)"
  by (simp_all add: gs_rings gs_spokes)

lemma shape_emphasis:
  "rings (generateSegments (p\<lparr>emphasis := e\<rparr>)) = rings (generateSegments p)"
  "spokes (generateSegments (p\<lparr>emphasis := e\<rparr>)) = spokes (generateSegments p)"
  by (simp_all add: gs_rings gs_spokes)

text \<open>The generator reads a request only through the hash of \<open>seed + "|" + proposition\<close>,
  the number of content words and the parameter vector.\<close>

lemma segmentBody_cong:
  assumes "paramVector p = paramVector q"
  shows "segmentBody p = segmentBody q"
  using assms by (intro ext) (simp add: segmentBody_def paramVector_def)

lemma ringBody_cong:
  assumes "paramVector p = paramVector q"
  shows "ringBody p = ringBody q"
  using assms segmentBody_cong [OF assms]
  by (intro ext) (simp add: ringBody_def paramVector_def)

lemma connBody_cong:
  assumes "paramVector p = paramVector q"
  shows "connBody p = connBody q"
  using assms by (intro ext) (simp add: connBody_def paramVector_def)

lemma connRingBody_cong:
  assumes "paramVector p = paramVector q"
  shows "connRingBody p = connRingBody q"
  using connBody_cong [OF assms] by (intro ext) (simp add: connRingBody_def)

lemma generateSegments_cong:
  assumes h: "hashStringToInt (seed p @ ''|'' @ proposition' p) =
      hashStringToInt (seed q @ ''|'' @ proposition' q)"
    and n: "lengthOr1 (splitContentWords (proposition' p)) =
      lengthOr1 (splitContentWords (proposition' q))"
    and v: "paramVector p = paramVector q"
  shows "generateSegments p = generateSegments q"
proof -
  have t: "temporality p = temporality q"
    using v by (simp add: paramVector_def)
  show ?thesis
    unfolding generateSegments_def Let_def h n t ringBody_cong [OF v] connRingBody_cong [OF v] ..
qed

text \<open>The first draw, and so the ring count, for the propositions \<open>cat\<close> and
  \<open>the cat\<close> under the default seed and parameters.\<close>

lemma rings_cat: "rings (generateSegments (defaultParams\<lparr>proposition' := ''cat''\<rparr>)) = 6"
proof -
  have h: "hashStringToInt ''arrival|cat'' = 3530652702"
    by (simp add: hashStringToInt_def)
  have u: "fst (rnd 3530652702) = 1942579368 / 4294967296"
    by (simp add: rnd_def Let_def)
  show ?thesis
    by (simp add: gs_rings defaultParams_def clamp_def h u)
qed

lemma rings_the_cat:
  "rings (generateSegments (defaultParams\<lparr>proposition' := ''the cat''\<rparr>)) = 5"
proof -
  have h: "hashStringToInt ''arrival|the cat'' = 2858273693"
    by (simp add: hashStringToInt_def)
  have u: "fst (rnd 2858273693) = 232685482 / 4294967296"
    by (simp add: rnd_def Let_def)
  show ?thesis
    by (simp add: gs_rings defaultParams_def clamp_def h u)
qed

text \<open>Two propositions that hash to the same 32-bit seed under the default seed string,
  with one and with six content words.\<close>

lemma hash_catj4u6: "hashStringToInt ''arrival|catj4u6'' = 1692448851"
  by (simp add: hashStringToInt_def)

lemma hash_bal: "hashStringToInt ''arrival|bal c d e f grba'' = 1692448851"
  by (simp add: hashStringToInt_def)

lemma words_catj4u6: "splitContentWords ''catj4u6'' = [''catj4u6'']"
  by code_simp

lemma words_bal:
  "splitContentWords ''bal c d e f grba'' = [''bal'', ''c'', ''d'', ''e'', ''f'', ''grba'']"
  by code_simp

text \<open>The layers of composite mode.\<close>

lemma length_compositeLayers: "length (compositeLayers p) = length (clauses Composite p)"
  by (simp add: compositeLayers_def Let_def)

lemma nth_compositeLayers:
  "i < length (clauses Composite p) \<Longrightarrow>
     compositeLayers p ! i =
       compositeLayer p (length (clauses Composite p)) i (clauses Composite p ! i)"
  by (simp add: compositeLayers_def Let_def nth_enumerate_eq)

lemma compositeLayer_fields:
  "g_rotate (compositeLayer p n i c) = (compositeRot n i * 180) / pi"
  "g_scale (compositeLayer p n i c) = Some (1 - real i * 0.06)"
  "g_opacity (compositeLayer p n i c) = 1 - real i * 0.07"
  "g_params (compositeLayer p n i c) = p\<lparr>proposition' := c, seed := seed p @ '':'' @ decimal i\<rparr>"
  "g_glyph (compositeLayer p n i c) =
     generateSegments (p\<lparr>proposition' := c, seed := seed p @ '':'' @ decimal i\<rparr>)"
  by (simp_all add: compositeLayer_def Let_def)

lemma compositeRot_degrees: "0 < n \<Longrightarrow> (compositeRot n i * 180) / pi = real i * (360 / (7 * real n))"
  by (simp add: compositeRot_def TAU_def field_simps)

lemma clauses_AB:
  "clauses Composite (defaultParams\<lparr>proposition' := ''A\<newline>B''\<rparr>) = [''A'', ''B'']"
  unfolding defaultParams_def by code_simp

lemma clauses_ABC:
  "clauses Composite (defaultParams\<lparr>proposition' := ''A\<newline>B\<newline>C''\<rparr>)
     = [''A'', ''B'', ''C'']"
  unfolding defaultParams_def by code_simp

section \<open>The seed hash\<close>

text \<open>
  Claim C3. For every string \<open>k\<close>, \<open>hashStringToInt k\<close> is determined by the
  sequence of character codes of \<open>k\<close> (it is a fold over that sequence, from the
  offset 2166136261, and nothing else enters it), it is an unsigned 32-bit integer, and
  it is never zero.
\<close>

theorem hashStringToInt_stable_nonzero:
  "hashStringToInt k =
     (let h = fold (\<lambda>c h. (h XOR word_of_nat c) * 16777619) (map of_char k) (2166136261 :: u32)
      in if unat h = 0 then 1 else unat h)
   \<and> 0 < hashStringToInt k \<and> hashStringToInt k < 2 ^ 32"
proof -
  have "unat x < 2 ^ 32" for x :: u32
    using unsigned_less [of x, where ?'a = nat] by simp
  then show ?thesis
    by (simp add: hashStringToInt_def Let_def hashLoop_fold)
qed

section \<open>Ring and spoke counts\<close>

text \<open>
  Claim C7. For every request whose temporality is in \<open>[0, 1]\<close>, whatever its seed,
  the generated geometry has between 3 and 7 rings, and its spoke count is one of
  7, 9, 11, 13, 17, 19: the value \<open>chooseSpokes\<close> gives for the number of content
  words, and \<open>chooseSpokes\<close> is nondecreasing in that number.
\<close>

theorem rings_and_spokes_bounded:
  assumes "0 \<le> temporality p" and "temporality p \<le> 1"
  shows "3 \<le> rings (generateSegments p) \<and> rings (generateSegments p) \<le> 7
    \<and> (\<exists>k. spokes (generateSegments p) = Some k \<and> k \<in> {7, 9, 11, 13, 17, 19})
    \<and> spokes (generateSegments p) = chooseSpokes (lengthOr1 (splitContentWords (proposition' p)))
    \<and> (\<forall>m n. m \<le> n \<longrightarrow>
          (\<exists>a b. chooseSpokes m = Some a \<and> chooseSpokes n = Some b \<and> a \<le> b))"
proof -
  have mono: "\<exists>a b. chooseSpokes m = Some a \<and> chooseSpokes n = Some b \<and> a \<le> b"
    if "m \<le> n" for m n
  proof -
    have "candidates ! nat (chooseSpokesIdx m) \<le> candidates ! nat (chooseSpokesIdx n)"
    proof (rule candidates_mono)
      show "0 \<le> chooseSpokesIdx m" using chooseSpokesIdx_range [of m] by simp
      show "chooseSpokesIdx m \<le> chooseSpokesIdx n" by (rule chooseSpokesIdx_mono [OF that])
      show "chooseSpokesIdx n \<le> 5" using chooseSpokesIdx_range [of n] by simp
    qed
    then show ?thesis by (simp only: chooseSpokes_Some) blast
  qed
  have cand: "\<exists>k. spokes (generateSegments p) = Some k \<and> k \<in> {7, 9, 11, 13, 17, 19}"
  proof -
    let ?i = "chooseSpokesIdx (lengthOr1 (splitContentWords (proposition' p)))"
    have "candidates ! nat ?i \<in> {7, 9, 11, 13, 17, 19}"
      using chooseSpokesIdx_range [of "lengthOr1 (splitContentWords (proposition' p))"]
      by (intro candidates_nth_cases) simp_all
    moreover have "spokes (generateSegments p) = Some (candidates ! nat ?i)"
      by (simp only: gs_spokes chooseSpokes_Some)
    ultimately show ?thesis by (intro exI conjI)
  qed
  show ?thesis
  proof (intro conjI allI impI)
    show "3 \<le> rings (generateSegments p)" "rings (generateSegments p) \<le> 7"
      using gs_rings_range [of p] by simp_all
    show "\<exists>k. spokes (generateSegments p) = Some k \<and> k \<in> {7, 9, 11, 13, 17, 19}"
      by (rule cand)
    show "spokes (generateSegments p) =
        chooseSpokes (lengthOr1 (splitContentWords (proposition' p)))"
      by (rule gs_spokes)
  next
    fix m n :: int
    assume "m \<le> n"
    then show "\<exists>a b. chooseSpokes m = Some a \<and> chooseSpokes n = Some b \<and> a \<le> b"
      by (rule mono)
  qed
qed

theorem rings_and_spokes_bounded_witness:
  "0 \<le> temporality defaultParams \<and> temporality defaultParams \<le> 1
    \<and> 3 \<le> rings (generateSegments defaultParams) \<and> rings (generateSegments defaultParams) \<le> 7
    \<and> spokes (generateSegments defaultParams) = Some 9
    \<and> (1::int) \<le> 8 \<and> chooseSpokes 1 = Some 7 \<and> chooseSpokes 8 = Some 9"
proof -
  have t: "0 \<le> temporality defaultParams" "temporality defaultParams \<le> 1"
    by (simp_all add: defaultParams_def)
  have c: "chooseSpokes 1 = Some 7" "chooseSpokes 8 = Some 9"
    by (simp_all add: chooseSpokes_def chooseSpokesIdx_def clamp_def candidates_def nthJS_def)
  from rings_and_spokes_bounded [OF t] t c show ?thesis
    by (simp add: splitContentWords_default lengthOr1_def)
qed

section \<open>Shape of the generated geometry\<close>

text \<open>
  Claim C9. The output \<open>g\<close> of the generator is well formed for every request:
  \<open>segments g\<close> has \<open>rings g\<close> entries and \<open>connectors g\<close> has
  \<open>rings g - 1\<close>; the spoke count is a number \<open>k\<close>, every ring has \<open>k\<close>
  arc segments and every connector set has \<open>k\<close> connectors; the arcs of ring
  \<open>i\<close> are drawn at the radius \<open>radiusBase g + i * ringGap g\<close> and the connectors
  after ring \<open>i\<close> run from that radius to the next one; the ring gap is positive, so
  these radii strictly increase with the ring index.
\<close>

theorem geometry_well_formed:
  assumes g: "g = generateSegments p"
  shows "length (segments g) = nat (rings g)
    \<and> length (connectors g) = nat (rings g - 1)
    \<and> (\<exists>k. spokes g = Some k
          \<and> (\<forall>i < nat (rings g). length (segments g ! i) = nat k)
          \<and> (\<forall>i < nat (rings g - 1). length (connectors g ! i) = nat k)
          \<and> (\<forall>i s. i < nat (rings g) \<and> s < nat k \<longrightarrow>
                (\<exists>a0 a1. seg_d (segments g ! i ! s) =
                   arcPath 0 0 (radiusBase g + real i * ringGap g) a0 a1))
          \<and> (\<forall>i s. i < nat (rings g - 1) \<and> s < nat k \<longrightarrow>
                (\<exists>a. (conn_x1 (connectors g ! i ! s), conn_y1 (connectors g ! i ! s)) =
                       polar 0 0 (radiusBase g + real i * ringGap g) a
                   \<and> (conn_x2 (connectors g ! i ! s), conn_y2 (connectors g ! i ! s)) =
                       polar 0 0 (radiusBase g + real (i + 1) * ringGap g) a)))
    \<and> 0 < ringGap g
    \<and> (\<forall>i j :: nat. i < j \<longrightarrow>
          radiusBase g + real i * ringGap g < radiusBase g + real j * ringGap g)"
proof -
  obtain k where k: "spokes g = Some k"
    using gs_spokes_Some [of p] g by blast
  have gap: "0 < ringGap g"
    using gs_ringGap_range [of p] g by simp
  have segs: "length (segments g ! i) = nat k" if "i < nat (rings g)" for i
    using segment_at(1) [of i p k] that k g by simp
  have conns: "length (connectors g ! i) = nat k" if "i < nat (rings g - 1)" for i
    using connector_at(1) [of i p k] that k g by simp
  have arc: "\<exists>a0 a1. seg_d (segments g ! i ! s) =
      arcPath 0 0 (radiusBase g + real i * ringGap g) a0 a1"
    if lt: "i < nat (rings g)" "s < nat k" for i s
  proof -
    obtain bias st where "segments g ! i ! s =
        fst (segmentBody p (radiusBase g + real i * ringGap g) i bias k s st)"
      using segment_at(2) [of i p k s] lt k g by blast
    then show ?thesis by (simp only: segmentBody_d)
  qed
  have ends: "\<exists>a. (conn_x1 (connectors g ! i ! s), conn_y1 (connectors g ! i ! s)) =
                       polar 0 0 (radiusBase g + real i * ringGap g) a
                   \<and> (conn_x2 (connectors g ! i ! s), conn_y2 (connectors g ! i ! s)) =
                       polar 0 0 (radiusBase g + real (i + 1) * ringGap g) a"
    if lt: "i < nat (rings g - 1)" "s < nat k" for i s
  proof -
    obtain st where "connectors g ! i ! s =
        fst (connBody p (radiusBase g + real i * ringGap g)
              (radiusBase g + real (i + 1) * ringGap g) k s st)"
      using connector_at(2) [of i p k s] lt k g by blast
    then show ?thesis by (simp only: connBody_ends)
  qed
  have radii: "radiusBase g + real i * ringGap g < radiusBase g + real j * ringGap g"
    if "i < j" for i j :: nat
    using that gap by simp
  have "length (segments g) = nat (rings g)" "length (connectors g) = nat (rings g - 1)"
    unfolding g by (rule length_segments, rule length_connectors)
  with k gap segs conns arc ends radii show ?thesis
    by (intro conjI exI [of _ k] allI impI) (simp_all only:)
qed

theorem geometry_well_formed_witness:
  "length (segments (generateSegments defaultParams)) = nat (rings (generateSegments defaultParams))
    \<and> length (connectors (generateSegments defaultParams)) =
        nat (rings (generateSegments defaultParams) - 1)
    \<and> spokes (generateSegments defaultParams) = Some 9
    \<and> (0 :: nat) < nat (rings (generateSegments defaultParams) - 1)
    \<and> length (segments (generateSegments defaultParams) ! 0) = 9
    \<and> length (connectors (generateSegments defaultParams) ! 0) = 9
    \<and> (\<exists>a0 a1. seg_d (segments (generateSegments defaultParams) ! 0 ! 0) =
          arcPath 0 0 (radiusBase (generateSegments defaultParams)) a0 a1)
    \<and> 0 < ringGap (generateSegments defaultParams)
    \<and> radiusBase (generateSegments defaultParams) + real 0 * ringGap (generateSegments defaultParams)
        < radiusBase (generateSegments defaultParams) + real 1 * ringGap (generateSegments defaultParams)"
proof -
  let ?g = "generateSegments defaultParams"
  have r: "(0 :: nat) < nat (rings ?g - 1)" "(0 :: nat) < nat (rings ?g)"
    using gs_rings_range [of defaultParams] by simp_all
  from geometry_well_formed [OF refl, of defaultParams]
  obtain k where k: "spokes ?g = Some k"
    and len: "length (segments ?g) = nat (rings ?g)" "length (connectors ?g) = nat (rings ?g - 1)"
    and segs: "\<forall>i < nat (rings ?g). length (segments ?g ! i) = nat k"
    and conns: "\<forall>i < nat (rings ?g - 1). length (connectors ?g ! i) = nat k"
    and arc: "\<forall>i s. i < nat (rings ?g) \<and> s < nat k \<longrightarrow>
                (\<exists>a0 a1. seg_d (segments ?g ! i ! s) =
                   arcPath 0 0 (radiusBase ?g + real i * ringGap ?g) a0 a1)"
    and gap: "0 < ringGap ?g"
    and radii: "\<forall>i j :: nat. i < j \<longrightarrow>
          radiusBase ?g + real i * ringGap ?g < radiusBase ?g + real j * ringGap ?g"
    by blast
  have k9: "k = 9" using k spokes_default by simp
  have "(0 :: nat) < nat (rings ?g) \<and> (0 :: nat) < nat k" using r k9 by simp
  with arc have "\<exists>a0 a1. seg_d (segments ?g ! 0 ! 0) =
      arcPath 0 0 (radiusBase ?g + real 0 * ringGap ?g) a0 a1"
    by blast
  then have a: "\<exists>a0 a1. seg_d (segments ?g ! 0 ! 0) = arcPath 0 0 (radiusBase ?g) a0 a1" by simp
  have "radiusBase ?g + real 0 * ringGap ?g < radiusBase ?g + real 1 * ringGap ?g"
    using radii [rule_format, of 0 1] by simp
  with len spokes_default r segs conns k9 a gap show ?thesis by simp
qed

text \<open>
  Claim C10. The generator is total, degenerate input included: for every request the
  spoke count is defined and at least 7; for every word count (zero and negative ones
  too) the index \<open>chooseSpokes\<close> reads at lies within the candidate array, so the read
  is never \<open>undefined\<close>; an empty word list counts as one word; there is at least one
  ring and every ring has at least 7 segments; a proposition with no content word gets
  7 spokes.
\<close>

theorem generator_total:
  "(\<exists>k. spokes (generateSegments p) = Some k \<and> 7 \<le> k)
    \<and> 0 \<le> chooseSpokesIdx n \<and> chooseSpokesIdx n < int (length candidates)
    \<and> (\<exists>k. chooseSpokes n = Some k \<and> 7 \<le> k)
    \<and> lengthOr1 ([] :: string list) = 1
    \<and> 0 < length (segments (generateSegments p))
    \<and> (\<forall>i < length (segments (generateSegments p)).
          7 \<le> length (segments (generateSegments p) ! i))
    \<and> (splitContentWords (proposition' p) = [] \<longrightarrow> spokes (generateSegments p) = Some 7)"
proof -
  obtain k where k: "spokes (generateSegments p) = Some k" "7 \<le> k"
    using gs_spokes_Some [of p] by blast
  have idx: "0 \<le> chooseSpokesIdx n" "chooseSpokesIdx n < int (length candidates)"
    using chooseSpokesIdx_range [of n] by (simp_all add: candidates_def)
  have "candidates ! nat (chooseSpokesIdx n) \<in> {7, 9, 11, 13, 17, 19}"
    using chooseSpokesIdx_range [of n] by (intro candidates_nth_cases) simp_all
  then have "7 \<le> candidates ! nat (chooseSpokesIdx n)" by auto
  then have ch: "\<exists>k. chooseSpokes n = Some k \<and> 7 \<le> k"
    by (simp only: chooseSpokes_Some) blast
  have nonempty: "0 < length (segments (generateSegments p))"
    using gs_rings_range [of p] by (simp add: length_segments)
  have ring: "7 \<le> length (segments (generateSegments p) ! i)"
    if "i < length (segments (generateSegments p))" for i
    using segment_at(1) [of i p k] that k by (simp add: length_segments)
  have empty: "spokes (generateSegments p) = Some 7" if "splitContentWords (proposition' p) = []"
    using that by (simp add: gs_spokes lengthOr1_def chooseSpokes_def chooseSpokesIdx_def
        clamp_def candidates_def nthJS_def)
  have one: "lengthOr1 ([] :: string list) = 1" by (simp add: lengthOr1_def)
  from k idx ch nonempty ring empty one show ?thesis
    by (intro conjI allI impI) blast+
qed

theorem generator_total_witness:
  "splitContentWords (proposition' (defaultParams\<lparr>proposition' := ''the''\<rparr>)) = []
    \<and> spokes (generateSegments (defaultParams\<lparr>proposition' := ''the''\<rparr>)) = Some 7
    \<and> 0 < length (segments (generateSegments (defaultParams\<lparr>proposition' := ''the''\<rparr>)))
    \<and> 7 \<le> length (segments (generateSegments (defaultParams\<lparr>proposition' := ''the''\<rparr>)) ! 0)
    \<and> chooseSpokes 0 = Some 7"
proof -
  let ?p = "defaultParams\<lparr>proposition' := ''the''\<rparr>"
  have e: "splitContentWords (proposition' ?p) = []"
    unfolding defaultParams_def by code_simp
  have c: "chooseSpokes 0 = Some 7"
    by (simp add: chooseSpokes_def chooseSpokesIdx_def clamp_def candidates_def nthJS_def)
  from generator_total [of ?p 0] e c show ?thesis by blast
qed

section \<open>Stroke width\<close>

text \<open>
  Claim C8. Take any request with non-negative certainty and emphasis (the sliders range
  over 0..1), whatever its seed and its other parameters, and any arc segment of its
  geometry, segment \<open>s\<close> of ring \<open>i\<close>. Raising the certainty alone, or the emphasis
  alone, leaves the segment in place and does not lower its stroke width; the stroke
  width always lies in the fixed range from 0.8 to 7; and the segment with the same
  number in any later ring \<open>j \<ge> i\<close> is not wider.
\<close>

theorem stroke_width_monotone_clamped_tapered:
  assumes par: "0 \<le> certainty p" "0 \<le> emphasis p"
    and i: "i < length (segments (generateSegments p))"
    and s: "s < length (segments (generateSegments p) ! i)"
  shows "(\<forall>c'. certainty p \<le> c' \<longrightarrow>
            i < length (segments (generateSegments (p\<lparr>certainty := c'\<rparr>)))
          \<and> s < length (segments (generateSegments (p\<lparr>certainty := c'\<rparr>)) ! i)
          \<and> seg_w (segments (generateSegments p) ! i ! s)
              \<le> seg_w (segments (generateSegments (p\<lparr>certainty := c'\<rparr>)) ! i ! s))
    \<and> (\<forall>e'. emphasis p \<le> e' \<longrightarrow>
            i < length (segments (generateSegments (p\<lparr>emphasis := e'\<rparr>)))
          \<and> s < length (segments (generateSegments (p\<lparr>emphasis := e'\<rparr>)) ! i)
          \<and> seg_w (segments (generateSegments p) ! i ! s)
              \<le> seg_w (segments (generateSegments (p\<lparr>emphasis := e'\<rparr>)) ! i ! s))
    \<and> 0.8 \<le> seg_w (segments (generateSegments p) ! i ! s)
    \<and> seg_w (segments (generateSegments p) ! i ! s) \<le> 7
    \<and> (\<forall>j. i \<le> j \<and> j < length (segments (generateSegments p)) \<longrightarrow>
            s < length (segments (generateSegments p) ! j)
          \<and> seg_w (segments (generateSegments p) ! j ! s)
              \<le> seg_w (segments (generateSegments p) ! i ! s))"
proof -
  obtain k where k: "spokes (generateSegments p) = Some k"
    using gs_spokes_Some [of p] by blast
  have iR: "i < nat (rings (generateSegments p))"
    using i by (simp only: length_segments)
  have i7: "i < 7"
    using iR gs_rings_range [of p] by linarith
  have sk: "s < nat k"
    using s segment_at(1) [OF iR k] by simp
  have w: "seg_w (segments (generateSegments p) ! i ! s) = strokeWidth (certainty p) (emphasis p) i"
    by (rule seg_w_at [OF iR k sk])
  have cert: "i < length (segments (generateSegments (p\<lparr>certainty := c'\<rparr>)))
          \<and> s < length (segments (generateSegments (p\<lparr>certainty := c'\<rparr>)) ! i)
          \<and> seg_w (segments (generateSegments p) ! i ! s)
              \<le> seg_w (segments (generateSegments (p\<lparr>certainty := c'\<rparr>)) ! i ! s)"
    if le: "certainty p \<le> c'" for c'
  proof -
    let ?q = "p\<lparr>certainty := c'\<rparr>"
    have iR': "i < nat (rings (generateSegments ?q))" using iR by (simp only: shape_certainty)
    have k': "spokes (generateSegments ?q) = Some k" using k by (simp only: shape_certainty)
    have "seg_w (segments (generateSegments ?q) ! i ! s) = strokeWidth c' (emphasis p) i"
      using seg_w_at [OF iR' k' sk] by simp
    moreover have "strokeWidth (certainty p) (emphasis p) i \<le> strokeWidth c' (emphasis p) i"
      by (rule strokeWidth_mono_certainty [OF le par(2) i7])
    moreover have "i < length (segments (generateSegments ?q))"
      using iR' by (simp only: length_segments)
    moreover have "s < length (segments (generateSegments ?q) ! i)"
      using sk segment_at(1) [OF iR' k'] by simp
    ultimately show ?thesis using w by simp
  qed
  have emph: "i < length (segments (generateSegments (p\<lparr>emphasis := e'\<rparr>)))
          \<and> s < length (segments (generateSegments (p\<lparr>emphasis := e'\<rparr>)) ! i)
          \<and> seg_w (segments (generateSegments p) ! i ! s)
              \<le> seg_w (segments (generateSegments (p\<lparr>emphasis := e'\<rparr>)) ! i ! s)"
    if le: "emphasis p \<le> e'" for e'
  proof -
    let ?q = "p\<lparr>emphasis := e'\<rparr>"
    have iR': "i < nat (rings (generateSegments ?q))" using iR by (simp only: shape_emphasis)
    have k': "spokes (generateSegments ?q) = Some k" using k by (simp only: shape_emphasis)
    have "seg_w (segments (generateSegments ?q) ! i ! s) = strokeWidth (certainty p) e' i"
      using seg_w_at [OF iR' k' sk] by simp
    moreover have "strokeWidth (certainty p) (emphasis p) i \<le> strokeWidth (certainty p) e' i"
      by (rule strokeWidth_mono_emphasis [OF le par(1) i7])
    moreover have "i < length (segments (generateSegments ?q))"
      using iR' by (simp only: length_segments)
    moreover have "s < length (segments (generateSegments ?q) ! i)"
      using sk segment_at(1) [OF iR' k'] by simp
    ultimately show ?thesis using w by simp
  qed
  have taper: "s < length (segments (generateSegments p) ! j)
          \<and> seg_w (segments (generateSegments p) ! j ! s)
              \<le> seg_w (segments (generateSegments p) ! i ! s)"
    if j: "i \<le> j \<and> j < length (segments (generateSegments p))" for j
  proof -
    have jR: "j < nat (rings (generateSegments p))"
      using j by (simp only: length_segments)
    have "seg_w (segments (generateSegments p) ! j ! s) = strokeWidth (certainty p) (emphasis p) j"
      by (rule seg_w_at [OF jR k sk])
    moreover have "strokeWidth (certainty p) (emphasis p) j \<le> strokeWidth (certainty p) (emphasis p) i"
      using j par by (intro strokeWidth_taper) simp_all
    moreover have "s < length (segments (generateSegments p) ! j)"
      using sk segment_at(1) [OF jR k] by simp
    ultimately show ?thesis using w by simp
  qed
  have range: "0.8 \<le> seg_w (segments (generateSegments p) ! i ! s)"
      "seg_w (segments (generateSegments p) ! i ! s) \<le> 7"
    unfolding w using strokeWidth_range [of "certainty p" "emphasis p" i] by simp_all
  show ?thesis
    using cert emph taper range by (intro conjI allI impI) blast+
qed

theorem stroke_width_monotone_clamped_tapered_witness:
  "0 \<le> certainty defaultParams \<and> 0 \<le> emphasis defaultParams
    \<and> 0 < length (segments (generateSegments defaultParams))
    \<and> 0 < length (segments (generateSegments defaultParams) ! 0)
    \<and> certainty defaultParams \<le> 1
    \<and> seg_w (segments (generateSegments defaultParams) ! 0 ! 0)
        \<le> seg_w (segments (generateSegments (defaultParams\<lparr>certainty := 1\<rparr>)) ! 0 ! 0)
    \<and> emphasis defaultParams \<le> 1
    \<and> seg_w (segments (generateSegments defaultParams) ! 0 ! 0)
        \<le> seg_w (segments (generateSegments (defaultParams\<lparr>emphasis := 1\<rparr>)) ! 0 ! 0)
    \<and> 0.8 \<le> seg_w (segments (generateSegments defaultParams) ! 0 ! 0)
    \<and> seg_w (segments (generateSegments defaultParams) ! 0 ! 0) \<le> 7
    \<and> 1 < length (segments (generateSegments defaultParams))
    \<and> seg_w (segments (generateSegments defaultParams) ! 1 ! 0)
        \<le> seg_w (segments (generateSegments defaultParams) ! 0 ! 0)"
proof -
  let ?g = "generateSegments defaultParams"
  have par: "0 \<le> certainty defaultParams" "0 \<le> emphasis defaultParams"
    and le: "certainty defaultParams \<le> 1" "emphasis defaultParams \<le> 1"
    by (simp_all add: defaultParams_def)
  have r: "0 < nat (rings ?g)" "1 < nat (rings ?g)"
    using gs_rings_range [of defaultParams] by simp_all
  then have i: "0 < length (segments ?g)" and j: "1 < length (segments ?g)"
    by (simp_all only: length_segments)
  have s: "0 < length (segments ?g ! 0)"
    using segment_at(1) [OF r(1) spokes_default] by simp
  from stroke_width_monotone_clamped_tapered [OF par i s] par le i j s
  show ?thesis by simp
qed

section \<open>What the geometry depends on\<close>

text \<open>
  Claim C1, as stated, fails: the source has no grapheme per word. It draws one glyph
  for the whole request, seeded by the hash of \<open>seed + "|" + proposition\<close>. The
  requests \<open>cat\<close> and \<open>the cat\<close>, with the same seed and the same parameter
  vector, both have \<open>cat\<close> as their only content word, and their glyphs differ: 6
  rings against 5.
\<close>

theorem same_word_different_geometry:
  "paramVector (defaultParams\<lparr>proposition' := ''cat''\<rparr>) =
      paramVector (defaultParams\<lparr>proposition' := ''the cat''\<rparr>)
    \<and> seed (defaultParams\<lparr>proposition' := ''cat''\<rparr>) =
      seed (defaultParams\<lparr>proposition' := ''the cat''\<rparr>)
    \<and> splitContentWords (proposition' (defaultParams\<lparr>proposition' := ''cat''\<rparr>)) = [''cat'']
    \<and> splitContentWords (proposition' (defaultParams\<lparr>proposition' := ''the cat''\<rparr>)) = [''cat'']
    \<and> rings (generateSegments (defaultParams\<lparr>proposition' := ''cat''\<rparr>)) = 6
    \<and> rings (generateSegments (defaultParams\<lparr>proposition' := ''the cat''\<rparr>)) = 5
    \<and> generateSegments (defaultParams\<lparr>proposition' := ''cat''\<rparr>) \<noteq>
      generateSegments (defaultParams\<lparr>proposition' := ''the cat''\<rparr>)"
proof -
  have w: "splitContentWords ''cat'' = [''cat'']" "splitContentWords ''the cat'' = [''cat'']"
    by code_simp+
  have "generateSegments (defaultParams\<lparr>proposition' := ''cat''\<rparr>) \<noteq>
      generateSegments (defaultParams\<lparr>proposition' := ''the cat''\<rparr>)"
  proof
    assume "generateSegments (defaultParams\<lparr>proposition' := ''cat''\<rparr>) =
      generateSegments (defaultParams\<lparr>proposition' := ''the cat''\<rparr>)"
    then have "rings (generateSegments (defaultParams\<lparr>proposition' := ''cat''\<rparr>)) =
      rings (generateSegments (defaultParams\<lparr>proposition' := ''the cat''\<rparr>))"
      by (rule arg_cong)
    then show False by (simp add: rings_cat rings_the_cat)
  qed
  with w rings_cat rings_the_cat show ?thesis
    by (simp add: paramVector_def)
qed

text \<open>
  Claim C1, amended. The glyph rendered for a request is a function of its seed string,
  its whole proposition and its parameter vector: two requests that agree on these three
  (whatever else they carry) get the same geometry.
\<close>

theorem geometry_function_of_whole_request:
  fixes p :: "'a SemagramParams_scheme" and q :: "'b SemagramParams_scheme"
  assumes "seed p = seed q" and "proposition' p = proposition' q"
    and "paramVector p = paramVector q"
  shows "generateSegments p = generateSegments q"
  using assms by (intro generateSegments_cong) simp_all

theorem geometry_function_of_whole_request_witness:
  "seed (defaultParams\<lparr>proposition' := ''the cat sat''\<rparr>) = seed defaultParams
    \<and> proposition' (defaultParams\<lparr>proposition' := ''the cat sat''\<rparr>) = ''the cat sat''
    \<and> generateSegments (defaultParams\<lparr>proposition' := ''the cat sat''\<rparr>) =
        generateSegments \<lparr>proposition' = ''the cat sat'', certainty = 0.68, modality = 0.4,
          temporality = 0.82, agency = 0.55, perspective = P1st, negation = False,
          hypothetical = False, emphasis = 0.9, seed = ''arrival'', \<dots> = True\<rparr>"
proof -
  let ?p = "defaultParams\<lparr>proposition' := ''the cat sat''\<rparr>"
  let ?q = "\<lparr>proposition' = ''the cat sat'', certainty = 0.68, modality = 0.4,
          temporality = 0.82, agency = 0.55, perspective = P1st, negation = False,
          hypothetical = False, emphasis = 0.9, seed = ''arrival'', \<dots> = True\<rparr>"
  have "seed ?p = seed ?q" "proposition' ?p = proposition' ?q" "paramVector ?p = paramVector ?q"
    by (simp_all add: defaultParams_def paramVector_def)
  from geometry_function_of_whole_request [OF this] show ?thesis
    by (simp add: defaultParams_def)
qed

text \<open>
  Claim C2, as stated, fails: the seed and the parameter vector do not determine the
  geometry, because the spoke count comes from the number of content words of the
  proposition. The propositions \<open>catj4u6\<close> and \<open>bal c d e f grba\<close>, under the same
  seed string and the same parameter vector, hash to the same 32-bit seed 1692448851,
  and their geometries have 7 and 9 spokes.
\<close>

theorem same_seed_different_spokes:
  "seed (defaultParams\<lparr>proposition' := ''catj4u6''\<rparr>) =
      seed (defaultParams\<lparr>proposition' := ''bal c d e f grba''\<rparr>)
    \<and> hashStringToInt (seed (defaultParams\<lparr>proposition' := ''catj4u6''\<rparr>) @ ''|'' @
          proposition' (defaultParams\<lparr>proposition' := ''catj4u6''\<rparr>)) = 1692448851
    \<and> hashStringToInt (seed (defaultParams\<lparr>proposition' := ''bal c d e f grba''\<rparr>) @ ''|'' @
          proposition' (defaultParams\<lparr>proposition' := ''bal c d e f grba''\<rparr>)) = 1692448851
    \<and> paramVector (defaultParams\<lparr>proposition' := ''catj4u6''\<rparr>) =
      paramVector (defaultParams\<lparr>proposition' := ''bal c d e f grba''\<rparr>)
    \<and> spokes (generateSegments (defaultParams\<lparr>proposition' := ''catj4u6''\<rparr>)) = Some 7
    \<and> spokes (generateSegments (defaultParams\<lparr>proposition' := ''bal c d e f grba''\<rparr>)) = Some 9
    \<and> generateSegments (defaultParams\<lparr>proposition' := ''catj4u6''\<rparr>) \<noteq>
      generateSegments (defaultParams\<lparr>proposition' := ''bal c d e f grba''\<rparr>)"
proof -
  let ?p = "defaultParams\<lparr>proposition' := ''catj4u6''\<rparr>"
  let ?q = "defaultParams\<lparr>proposition' := ''bal c d e f grba''\<rparr>"
  have sd: "seed defaultParams = ''arrival''" by (simp add: defaultParams_def)
  have sp: "spokes (generateSegments ?p) = Some 7"
    by (simp add: gs_spokes words_catj4u6 lengthOr1_def chooseSpokes_def chooseSpokesIdx_def
        clamp_def candidates_def nthJS_def)
  have sq: "spokes (generateSegments ?q) = Some 9"
    by (simp add: gs_spokes words_bal lengthOr1_def chooseSpokes_def chooseSpokesIdx_def
        clamp_def candidates_def nthJS_def)
  have ne: "generateSegments ?p \<noteq> generateSegments ?q"
  proof
    assume "generateSegments ?p = generateSegments ?q"
    then have "spokes (generateSegments ?p) = spokes (generateSegments ?q)"
      by (rule arg_cong)
    then show False by (simp add: sp sq)
  qed
  have hp: "hashStringToInt (seed ?p @ ''|'' @ proposition' ?p) = 1692448851"
    by (simp add: sd hash_catj4u6)
  have hq: "hashStringToInt (seed ?q @ ''|'' @ proposition' ?q) = 1692448851"
    by (simp add: sd hash_bal)
  have v: "paramVector ?p = paramVector ?q" by (simp add: paramVector_def)
  have s: "seed ?p = seed ?q" by simp
  from s hp hq v sp sq ne show ?thesis by (intro conjI)
qed

text \<open>
  Claim C2, amended. The geometry is determined by the 32-bit seed, the parameter vector
  and the content-word count: two calls of the generator whose requests hash to the same
  seed and agree on the parameter vector and on the word count return the same segments,
  connectors, ring and spoke counts and ring gap. Every draw is made from the stream
  \<open>rnd\<close> started at that seed, threaded through the loops in the order of the source.
\<close>

theorem generateSegments_deterministic:
  assumes "hashStringToInt (seed p @ ''|'' @ proposition' p) =
      hashStringToInt (seed q @ ''|'' @ proposition' q)"
    and "lengthOr1 (splitContentWords (proposition' p)) =
      lengthOr1 (splitContentWords (proposition' q))"
    and "paramVector p = paramVector q"
  shows "generateSegments p = generateSegments q"
  using assms by (rule generateSegments_cong)

theorem generateSegments_deterministic_witness:
  "hashStringToInt (seed (defaultParams\<lparr>seed := ''x'', proposition' := ''|c''\<rparr>) @ ''|'' @
        proposition' (defaultParams\<lparr>seed := ''x'', proposition' := ''|c''\<rparr>)) =
    hashStringToInt (seed (defaultParams\<lparr>seed := ''x|'', proposition' := ''c''\<rparr>) @ ''|'' @
        proposition' (defaultParams\<lparr>seed := ''x|'', proposition' := ''c''\<rparr>))
   \<and> lengthOr1 (splitContentWords (proposition' (defaultParams\<lparr>seed := ''x'', proposition' := ''|c''\<rparr>))) =
     lengthOr1 (splitContentWords (proposition' (defaultParams\<lparr>seed := ''x|'', proposition' := ''c''\<rparr>)))
   \<and> paramVector (defaultParams\<lparr>seed := ''x'', proposition' := ''|c''\<rparr>) =
     paramVector (defaultParams\<lparr>seed := ''x|'', proposition' := ''c''\<rparr>)
   \<and> generateSegments (defaultParams\<lparr>seed := ''x'', proposition' := ''|c''\<rparr>) =
     generateSegments (defaultParams\<lparr>seed := ''x|'', proposition' := ''c''\<rparr>)"
proof -
  let ?p = "defaultParams\<lparr>seed := ''x'', proposition' := ''|c''\<rparr>"
  let ?q = "defaultParams\<lparr>seed := ''x|'', proposition' := ''c''\<rparr>"
  have h: "hashStringToInt (seed ?p @ ''|'' @ proposition' ?p) =
      hashStringToInt (seed ?q @ ''|'' @ proposition' ?q)"
    by simp
  have "splitContentWords ''|c'' = [''c'']" "splitContentWords ''c'' = [''c'']"
    by code_simp+
  then have n: "lengthOr1 (splitContentWords (proposition' ?p)) =
      lengthOr1 (splitContentWords (proposition' ?q))"
    by simp
  have v: "paramVector ?p = paramVector ?q"
    by (simp add: paramVector_def)
  from generateSegments_deterministic [OF h n v] h n v show ?thesis by blast
qed

section \<open>Tokenization\<close>

text \<open>
  Claim C4. The word count the generator passes to \<open>chooseSpokes\<close>,
  \<open>words.length || 1\<close>, is the length of the token list of the specification, in which
  a phrase without content words counts as one token, the raw input itself. So the
  count is never zero, and for a phrase whose extraction is empty it is 1.
\<close>

theorem tokenization_fallback:
  "lengthOr1 (splitContentWords str) = int (length (tokenizeSpec str))
    \<and> 0 < length (tokenizeSpec str)
    \<and> spokes (generateSegments p) = chooseSpokes (int (length (tokenizeSpec (proposition' p))))
    \<and> (splitContentWords str = [] \<longrightarrow>
          tokenizeSpec str = [str] \<and> lengthOr1 (splitContentWords str) = 1)"
proof -
  have n: "lengthOr1 (splitContentWords t) = int (length (tokenizeSpec t))" for t
    by (simp add: lengthOr1_def tokenizeSpec_def Let_def)
  have "0 < length (tokenizeSpec str)"
    by (simp add: tokenizeSpec_def Let_def)
  moreover have "spokes (generateSegments p) =
      chooseSpokes (int (length (tokenizeSpec (proposition' p))))"
    by (simp only: gs_spokes n)
  moreover have "tokenizeSpec str = [str] \<and> lengthOr1 (splitContentWords str) = 1"
    if "splitContentWords str = []"
    using that by (simp add: tokenizeSpec_def lengthOr1_def)
  ultimately show ?thesis using n [of str] by blast
qed

theorem tokenization_fallback_witness:
  "splitContentWords ''The a AN'' = []
    \<and> tokenizeSpec ''The a AN'' = [''The a AN'']
    \<and> lengthOr1 (splitContentWords ''The a AN'') = 1
    \<and> spokes (generateSegments (defaultParams\<lparr>proposition' := ''The a AN''\<rparr>)) = chooseSpokes 1"
proof -
  have e: "splitContentWords ''The a AN'' = []"
    by code_simp
  from tokenization_fallback [of "''The a AN''" "defaultParams\<lparr>proposition' := ''The a AN''\<rparr>"] e
  show ?thesis by simp
qed

section \<open>Blend and composite mode\<close>

text \<open>
  Claim C5. In blend mode, for every weight in \<open>[0, 1]\<close>, the opacity of layer A is the
  linear interpolation from 1 to 0.35 and that of layer B the one from 0.35 to 1; both
  stay between the floor 0.35 and the maximum 1; at weight 0 layer A is at the maximum
  and layer B at the floor, and the other way round at weight 1.
\<close>

theorem blend_opacity_linear:
  assumes "0 \<le> blend" and "blend \<le> 1"
  shows "g_opacity (blendLayerA p blend) = lerp 1 0.35 blend
    \<and> g_opacity (blendLayerB p2 blend) = lerp 0.35 1 blend
    \<and> 0.35 \<le> g_opacity (blendLayerA p blend) \<and> g_opacity (blendLayerA p blend) \<le> 1
    \<and> 0.35 \<le> g_opacity (blendLayerB p2 blend) \<and> g_opacity (blendLayerB p2 blend) \<le> 1
    \<and> g_opacity (blendLayerA p 0) = 1 \<and> g_opacity (blendLayerB p2 0) = 0.35
    \<and> g_opacity (blendLayerA p 1) = 0.35 \<and> g_opacity (blendLayerB p2 1) = 1"
  using assms by (simp add: blendLayerA_def blendLayerB_def lerp_def)

theorem blend_opacity_linear_witness:
  "(0 :: real) \<le> 1 / 2 \<and> (1 / 2 :: real) \<le> 1
    \<and> g_opacity (blendLayerA defaultParams (1 / 2)) = 0.675
    \<and> g_opacity (blendLayerB defaultParams (1 / 2)) = 0.675
    \<and> g_opacity (blendLayerA defaultParams 0) = 1
    \<and> g_opacity (blendLayerB defaultParams 0) = 0.35"
proof -
  have b: "(0 :: real) \<le> 1 / 2" "(1 / 2 :: real) \<le> 1" by simp_all
  from blend_opacity_linear [OF b, of defaultParams defaultParams] b show ?thesis
    by (simp add: lerp_def)
qed

text \<open>
  Claim C6, as stated, fails: the angular step is not the same for every number of
  clauses. With two clauses the second layer is rotated by 180/7 degrees, with three
  clauses by 120/7 degrees.
\<close>

theorem composite_step_depends_on_clause_count:
  "length (compositeLayers (defaultParams\<lparr>proposition' := ''A\<newline>B''\<rparr>)) = 2
    \<and> g_rotate (compositeLayers (defaultParams\<lparr>proposition' := ''A\<newline>B''\<rparr>) ! 1)
        = 180 / 7
    \<and> length (compositeLayers
          (defaultParams\<lparr>proposition' := ''A\<newline>B\<newline>C''\<rparr>)) = 3
    \<and> g_rotate (compositeLayers
          (defaultParams\<lparr>proposition' := ''A\<newline>B\<newline>C''\<rparr>) ! 1)
        = 120 / 7"
  by (simp add: length_compositeLayers nth_compositeLayers clauses_AB clauses_ABC
      compositeLayer_fields compositeRot_degrees)

text \<open>
  Claim C6, amended. In composite mode, with \<open>n\<close> clauses, there is one layer per
  clause, in clause order; layer \<open>i\<close> renders clause \<open>i\<close> under the seed
  \<open>seed + ":" + i\<close>, is rotated by \<open>i\<close> times the step \<open>TAU / (7 n)\<close> (that is
  \<open>i * 360 / (7 n)\<close> degrees), the same step for all layers of one rendering but
  depending on \<open>n\<close>, has scale \<open>1 - 0.06 i\<close> and opacity \<open>1 - 0.07 i\<close>; every later
  layer has a strictly smaller scale and opacity. For exactly two clauses the second
  layer is rotated by \<open>TAU / 14\<close> and has scale 0.94, below the first layer's 1.
\<close>

theorem composite_layers_by_index:
  assumes cl: "cl = clauses Composite p" and i: "i < length cl"
  shows "length (compositeLayers p) = length cl
    \<and> g_params (compositeLayers p ! i) = p\<lparr>proposition' := cl ! i, seed := seed p @ '':'' @ decimal i\<rparr>
    \<and> g_glyph (compositeLayers p ! i) =
        generateSegments (p\<lparr>proposition' := cl ! i, seed := seed p @ '':'' @ decimal i\<rparr>)
    \<and> g_rotate (compositeLayers p ! i) = (real i * (TAU / (real (length cl) * 7)) * 180) / pi
    \<and> g_rotate (compositeLayers p ! i) = real i * (360 / (7 * real (length cl)))
    \<and> g_scale (compositeLayers p ! i) = Some (1 - real i * 0.06)
    \<and> g_opacity (compositeLayers p ! i) = 1 - real i * 0.07
    \<and> (\<forall>j. i < j \<and> j < length cl \<longrightarrow>
          (\<exists>a b. g_scale (compositeLayers p ! i) = Some a \<and> g_scale (compositeLayers p ! j) = Some b
             \<and> b < a)
          \<and> g_opacity (compositeLayers p ! j) < g_opacity (compositeLayers p ! i))
    \<and> (length cl = 2 \<longrightarrow>
          g_rotate (compositeLayers p ! 1) = ((TAU / 14) * 180) / pi
          \<and> g_scale (compositeLayers p ! 0) = Some 1
          \<and> g_scale (compositeLayers p ! 1) = Some 0.94)"
proof -
  have n: "0 < length cl" using i by (cases cl) simp_all
  have L: "compositeLayers p ! j = compositeLayer p (length cl) j (cl ! j)" if "j < length cl" for j
    using that nth_compositeLayers [of j p] cl by simp
  have rot: "g_rotate (compositeLayers p ! i) = (real i * (TAU / (real (length cl) * 7)) * 180) / pi"
    by (simp add: L [OF i] compositeLayer_fields compositeRot_def)
  have later: "(\<exists>a b. g_scale (compositeLayers p ! i) = Some a
        \<and> g_scale (compositeLayers p ! j) = Some b \<and> b < a)
      \<and> g_opacity (compositeLayers p ! j) < g_opacity (compositeLayers p ! i)"
    if "i < j \<and> j < length cl" for j
    using that by (simp add: L [OF i] L compositeLayer_fields)
  have two: "g_rotate (compositeLayers p ! 1) = ((TAU / 14) * 180) / pi
          \<and> g_scale (compositeLayers p ! 0) = Some 1
          \<and> g_scale (compositeLayers p ! 1) = Some 0.94"
    if "length cl = 2"
    using that by (simp add: L compositeLayer_fields compositeRot_def)
  have "length (compositeLayers p) = length cl"
    by (simp add: length_compositeLayers cl)
  moreover have "g_rotate (compositeLayers p ! i) = real i * (360 / (7 * real (length cl)))"
    by (simp add: L [OF i] compositeLayer_fields compositeRot_degrees [OF n])
  ultimately show ?thesis
    using rot later two by (simp add: L [OF i] compositeLayer_fields)
qed

theorem composite_layers_by_index_witness:
  "[''A'', ''B''] = clauses Composite (defaultParams\<lparr>proposition' := ''A\<newline>B''\<rparr>)
    \<and> (0 :: nat) < length [''A'', ''B'']
    \<and> length (compositeLayers (defaultParams\<lparr>proposition' := ''A\<newline>B''\<rparr>)) = 2
    \<and> proposition' (g_params (compositeLayers (defaultParams\<lparr>proposition' := ''A\<newline>B''\<rparr>) ! 0)) = ''A''
    \<and> seed (g_params (compositeLayers (defaultParams\<lparr>proposition' := ''A\<newline>B''\<rparr>) ! 0)) = ''arrival:0''
    \<and> g_rotate (compositeLayers (defaultParams\<lparr>proposition' := ''A\<newline>B''\<rparr>) ! 0) = 0
    \<and> g_scale (compositeLayers (defaultParams\<lparr>proposition' := ''A\<newline>B''\<rparr>) ! 0) = Some 1
    \<and> g_opacity (compositeLayers (defaultParams\<lparr>proposition' := ''A\<newline>B''\<rparr>) ! 0) = 1
    \<and> g_opacity (compositeLayers (defaultParams\<lparr>proposition' := ''A\<newline>B''\<rparr>) ! 1)
        < g_opacity (compositeLayers (defaultParams\<lparr>proposition' := ''A\<newline>B''\<rparr>) ! 0)
    \<and> g_rotate (compositeLayers (defaultParams\<lparr>proposition' := ''A\<newline>B''\<rparr>) ! 1)
        = ((TAU / 14) * 180) / pi
    \<and> g_scale (compositeLayers (defaultParams\<lparr>proposition' := ''A\<newline>B''\<rparr>) ! 1) = Some 0.94"
proof -
  let ?p = "defaultParams\<lparr>proposition' := ''A\<newline>B''\<rparr>"
  have cl: "[''A'', ''B''] = clauses Composite ?p"
    by (simp only: clauses_AB)
  have i: "(0 :: nat) < length [''A'', ''B'']" by simp
  have d: "decimal 0 = ''0''" by code_simp
  have sd: "seed defaultParams = ''arrival''" by (simp add: defaultParams_def)
  note th = composite_layers_by_index [OF cl i]
  have j: "(0 :: nat) < 1 \<and> (1 :: nat) < length [''A'', ''B'']" by simp
  from th j have op: "g_opacity (compositeLayers ?p ! 1) < g_opacity (compositeLayers ?p ! 0)"
    by blast
  from th op show ?thesis
    by (simp add: d sd clauses_AB)
qed

end
